theory Spec2Isabelle
  imports Complex_Main
begin

section \<open>Python values\<close>

text \<open>
  The answer generator of \<^verbatim>\<open>src/rag/generation/generator.py\<close> works on
  dictionaries whose values are untyped. A value is \<open>None\<close>, an integer, a string, a list
  or a dictionary. A Python \<open>str\<close> is modelled by the bytes of its UTF-8 encoding: the
  markers the code searches for are ASCII, and an ASCII byte never occurs inside the
  encoding of another code point, so substring tests agree with Python's. A dictionary
  is an association list read with \<open>map_of\<close>.
\<close>

datatype pyval =
    PNone
  | PInt int
  | PStr string
  | PList "pyval list"
  | PDict "(string \<times> pyval) list"

type_synonym pydict = "(string \<times> pyval) list"

type_synonym document = pydict

text \<open>
  \<open>AttributeError\<close> is what \<open>v.get(...)\<close> raises when \<open>v\<close> is not a dictionary;
  \<open>ClientError\<close> stands for whatever the language-model client raises.
\<close>

datatype error = AttributeError | ClientError string

text \<open>\<open>d.get(key, default)\<close> on a dictionary.\<close>

definition dict_get :: "pydict \<Rightarrow> string \<Rightarrow> pyval \<Rightarrow> pyval" where
  "dict_get d k dflt = (case map_of d k of None \<Rightarrow> dflt | Some v \<Rightarrow> v)"

text \<open>\<open>v.get(key, default)\<close> on any value: only a dictionary has the method.\<close>

fun py_get :: "pyval \<Rightarrow> string \<Rightarrow> pyval \<Rightarrow> error + pyval" where
  "py_get (PDict d) k dflt = Inr (dict_get d k dflt)"
| "py_get PNone k dflt = Inl AttributeError"
| "py_get (PInt n) k dflt = Inl AttributeError"
| "py_get (PStr s) k dflt = Inl AttributeError"
| "py_get (PList vs) k dflt = Inl AttributeError"

subsection \<open>Rendering values in an f-string\<close>

definition digit_char :: "nat \<Rightarrow> char" where
  "digit_char d = ''0123456789'' ! (d mod 10)"

fun str_nat :: "nat \<Rightarrow> string" where
  "str_nat n = (if n < 10 then [digit_char n] else str_nat (n div 10) @ [digit_char (n mod 10)])"

declare str_nat.simps [simp del]

text \<open>\<open>str(i)\<close> for an integer: decimal digits, with a minus sign when negative.\<close>

definition str_int :: "int \<Rightarrow> string" where
  "str_int i = (if i < 0 then CHR ''-'' # str_nat (nat (- i)) else str_nat (nat i))"

text \<open>
  \<open>f"{v}"\<close>: a string is inserted as it is, \<open>None\<close> and integers by their \<open>str\<close>.
  Lists and dictionaries are rendered by Python's built-in \<open>repr\<close>, which is not part
  of this repository and is taken as the parameter \<open>py_repr\<close>.
\<close>

fun py_format :: "(pyval \<Rightarrow> string) \<Rightarrow> pyval \<Rightarrow> string" where
  "py_format py_repr PNone = ''None''"
| "py_format py_repr (PInt i) = str_int i"
| "py_format py_repr (PStr s) = s"
| "py_format py_repr (PList vs) = py_repr (PList vs)"
| "py_format py_repr (PDict d) = py_repr (PDict d)"

subsection \<open>String operations\<close>

text \<open>\<open>s.startswith(p)\<close>.\<close>

fun starts_with :: "string \<Rightarrow> string \<Rightarrow> bool" where
  "starts_with s [] = True"
| "starts_with [] (c # p) = False"
| "starts_with (a # s) (c # p) = (a = c \<and> starts_with s p)"

text \<open>\<open>sub in s\<close> for strings.\<close>

fun str_contains :: "string \<Rightarrow> string \<Rightarrow> bool" where
  "str_contains sub [] = (sub = [])"
| "str_contains sub (c # s) = (starts_with (c # s) sub \<or> str_contains sub s)"

text \<open>\<open>sep.join(parts)\<close>.\<close>

fun str_join :: "string \<Rightarrow> string list \<Rightarrow> string" where
  "str_join sep [] = []"
| "str_join sep [p] = p"
| "str_join sep (p # q # ps) = p @ sep @ str_join sep (q # ps)"

text \<open>\<open>s.split("\n")\<close>: the lines of a text.\<close>

fun split_lines :: "string \<Rightarrow> string list" where
  "split_lines [] = [[]]"
| "split_lines (c # s) =
     (if c = CHR ''\<newline>'' then [] # split_lines s
      else (case split_lines s of [] \<Rightarrow> [[c]] | l # ls \<Rightarrow> (c # l) # ls))"

text \<open>The citation marker \<open>f"[{i}]"\<close>.\<close>

definition marker :: "int \<Rightarrow> string" where
  "marker i = ''['' @ str_int i @ '']''"

section \<open>The answer generator\<close>

record chat_model =
  model :: string
  temperature :: real
  openai_api_key :: "string option"

record prompt_template =
  template :: string
  input_variables :: "string list"

record generator =
  llm :: "chat_model option"
  prompt :: prompt_template

record citation =
  index :: int
  title :: pyval
  authors :: pyval
  year :: pyval

record generated_answer =
  answer :: string
  sources :: "citation list"

text \<open>The class constant \<open>MEDICAL_PROMPT\<close>, as UTF-8.\<close>

definition MEDICAL_PROMPT :: string where
  "MEDICAL_PROMPT =
     [CHR 0xEB, CHR 0x8B, CHR 0xB9, CHR 0xEC, CHR 0x8B, CHR 0xA0] @
     [CHR 0xEC, CHR 0x9D, CHR 0x80] @ '' '' @
     [CHR 0xEC, CHR 0x9D, CHR 0x98, CHR 0xEB, CHR 0xA3, CHR 0x8C] @ '' '' @
     [CHR 0xEC, CHR 0xA0, CHR 0x84, CHR 0xEB, CHR 0xAC, CHR 0xB8] @
     [CHR 0xEA, CHR 0xB0, CHR 0x80, CHR 0xEB, CHR 0xA5, CHR 0xBC] @ '' '' @
     [CHR 0xEC, CHR 0x9C, CHR 0x84, CHR 0xED, CHR 0x95, CHR 0x9C] @ '' '' @
     [CHR 0xEC, CHR 0xA7, CHR 0x84, CHR 0xEB, CHR 0x8B, CHR 0xA8] @ '' '' @
     [CHR 0xEB, CHR 0xB3, CHR 0xB4, CHR 0xEC, CHR 0xA1, CHR 0xB0] @
     '' AI'' @
     [CHR 0xEC, CHR 0x9E, CHR 0x85, CHR 0xEB, CHR 0x8B, CHR 0x88] @
     [CHR 0xEB, CHR 0x8B, CHR 0xA4] @ ''.\<newline>'' @
     [CHR 0xEC, CHR 0x95, CHR 0x84, CHR 0xEB, CHR 0x9E, CHR 0x98] @ '' '' @
     [CHR 0xEC, CHR 0xB0, CHR 0xB8, CHR 0xEA, CHR 0xB3, CHR 0xA0] @ '' '' @
     [CHR 0xEB, CHR 0xAC, CHR 0xB8, CHR 0xED, CHR 0x97, CHR 0x8C] @
     [CHR 0xEC, CHR 0x9D, CHR 0x84] @ '' '' @
     [CHR 0xEB, CHR 0xB0, CHR 0x94, CHR 0xED, CHR 0x83, CHR 0x95] @
     [CHR 0xEC, CHR 0x9C, CHR 0xBC, CHR 0xEB, CHR 0xA1, CHR 0x9C] @ '' '' @
     [CHR 0xEC, CHR 0xA7, CHR 0x88, CHR 0xEB, CHR 0xAC, CHR 0xB8] @
     [CHR 0xEC, CHR 0x97, CHR 0x90] @ '' '' @
     [CHR 0xEB, CHR 0x8B, CHR 0xB5, CHR 0xEB, CHR 0xB3, CHR 0x80] @
     [CHR 0xED, CHR 0x95, CHR 0x98, CHR 0xEC, CHR 0x84, CHR 0xB8] @
     [CHR 0xEC, CHR 0x9A, CHR 0x94] @ ''.\<newline>'' @ ''\<newline>'' @
     ''## '' @
     [CHR 0xEC, CHR 0xB0, CHR 0xB8, CHR 0xEA, CHR 0xB3, CHR 0xA0] @ '' '' @
     [CHR 0xEB, CHR 0xAC, CHR 0xB8, CHR 0xED, CHR 0x97, CHR 0x8C] @
     ''\<newline>'' @ ''{context}\<newline>'' @ ''\<newline>'' @ ''## '' @
     [CHR 0xEC, CHR 0xA7, CHR 0x88, CHR 0xEB, CHR 0xAC, CHR 0xB8] @
     ''\<newline>'' @ ''{question}\<newline>'' @ ''\<newline>'' @ ''## '' @
     [CHR 0xEC, CHR 0xA7, CHR 0x80, CHR 0xEC, CHR 0xB9, CHR 0xA8] @
     ''\<newline>'' @ ''1. '' @
     [CHR 0xEB, CHR 0xAC, CHR 0xB8, CHR 0xED, CHR 0x97, CHR 0x8C] @
     [CHR 0xEC, CHR 0x97, CHR 0x90] @ '' '' @
     [CHR 0xEA, CHR 0xB7, CHR 0xBC, CHR 0xEA, CHR 0xB1, CHR 0xB0] @
     [CHR 0xED, CHR 0x95, CHR 0x98, CHR 0xEC, CHR 0x97, CHR 0xAC] @ '' '' @
     [CHR 0xEB, CHR 0x8B, CHR 0xB5, CHR 0xEB, CHR 0xB3, CHR 0x80] @
     [CHR 0xED, CHR 0x95, CHR 0x98, CHR 0xEC, CHR 0x84, CHR 0xB8] @
     [CHR 0xEC, CHR 0x9A, CHR 0x94] @ ''\<newline>'' @ ''2. '' @
     [CHR 0xEB, CHR 0xB6, CHR 0x88, CHR 0xED, CHR 0x99, CHR 0x95] @
     [CHR 0xEC, CHR 0x8B, CHR 0xA4, CHR 0xED, CHR 0x95, CHR 0x9C] @ '' '' @
     [CHR 0xEA, CHR 0xB2, CHR 0xBD, CHR 0xEC, CHR 0x9A, CHR 0xB0] @ '' '' @
     [CHR 0xEB, CHR 0xAA, CHR 0x85, CHR 0xEC, CHR 0x8B, CHR 0x9C] @
     [CHR 0xEC, CHR 0xA0, CHR 0x81, CHR 0xEC, CHR 0x9C, CHR 0xBC] @
     [CHR 0xEB, CHR 0xA1, CHR 0x9C] @ '' '' @
     [CHR 0xED, CHR 0x91, CHR 0x9C, CHR 0xED, CHR 0x98, CHR 0x84] @
     [CHR 0xED, CHR 0x95, CHR 0x98, CHR 0xEC, CHR 0x84, CHR 0xB8] @
     [CHR 0xEC, CHR 0x9A, CHR 0x94] @ ''\<newline>'' @ ''3. '' @
     [CHR 0xEC, CHR 0xB0, CHR 0xB8, CHR 0xEA, CHR 0xB3, CHR 0xA0] @
     [CHR 0xEB, CHR 0xAC, CHR 0xB8, CHR 0xED, CHR 0x97, CHR 0x8C] @
     [CHR 0xEC, CHR 0x9D, CHR 0x84] @ '' [1], [2] '' @
     [CHR 0xED, CHR 0x98, CHR 0x95, CHR 0xEC, CHR 0x8B, CHR 0x9D] @
     [CHR 0xEC, CHR 0x9C, CHR 0xBC, CHR 0xEB, CHR 0xA1, CHR 0x9C] @ '' '' @
     [CHR 0xEC, CHR 0x9D, CHR 0xB8, CHR 0xEC, CHR 0x9A, CHR 0xA9] @
     [CHR 0xED, CHR 0x95, CHR 0x98, CHR 0xEC, CHR 0x84, CHR 0xB8] @
     [CHR 0xEC, CHR 0x9A, CHR 0x94] @ ''\<newline>'' @ ''4. '' @
     [CHR 0xEC, CHR 0x9D, CHR 0xB4] @ '' '' @
     [CHR 0xEC, CHR 0xA0, CHR 0x95, CHR 0xEB, CHR 0xB3, CHR 0xB4] @
     [CHR 0xEB, CHR 0x8A, CHR 0x94] @ '' '' @
     [CHR 0xEC, CHR 0xB0, CHR 0xB8, CHR 0xEA, CHR 0xB3, CHR 0xA0] @
     [CHR 0xEC, CHR 0x9A, CHR 0xA9, CHR 0xEC, CHR 0x9D, CHR 0xB4] @
     [CHR 0xEB, CHR 0xA9, CHR 0xB0] @ '' '' @
     [CHR 0xEC, CHR 0xB5, CHR 0x9C, CHR 0xEC, CHR 0xA2, CHR 0x85] @ '' '' @
     [CHR 0xEC, CHR 0xA7, CHR 0x84, CHR 0xEB, CHR 0x8B, CHR 0xA8] @
     [CHR 0xEC, CHR 0x9D, CHR 0x80] @ '' '' @
     [CHR 0xEC, CHR 0x9D, CHR 0x98, CHR 0xEC, CHR 0x82, CHR 0xAC] @
     [CHR 0xEA, CHR 0xB0, CHR 0x80] @ '' '' @
     [CHR 0xEA, CHR 0xB2, CHR 0xB0, CHR 0xEC, CHR 0xA0, CHR 0x95] @
     [CHR 0xED, CHR 0x95, CHR 0xB4, CHR 0xEC, CHR 0x95, CHR 0xBC] @ '' '' @
     [CHR 0xED, CHR 0x95, CHR 0xA8, CHR 0xEC, CHR 0x9D, CHR 0x84] @ '' '' @
     [CHR 0xEB, CHR 0xAA, CHR 0x85, CHR 0xEC, CHR 0x8B, CHR 0x9C] @
     [CHR 0xED, CHR 0x95, CHR 0x98, CHR 0xEC, CHR 0x84, CHR 0xB8] @
     [CHR 0xEC, CHR 0x9A, CHR 0x94] @ ''\<newline>'' @ ''\<newline>'' @
     ''## '' @ [CHR 0xEB, CHR 0x8B, CHR 0xB5, CHR 0xEB, CHR 0xB3, CHR 0x80]"

text \<open>The answer returned when no model is configured, as UTF-8.\<close>

definition NOT_CONFIGURED :: string where
  "NOT_CONFIGURED =
     ''LLM'' @ [CHR 0xEC, CHR 0x9D, CHR 0xB4] @ '' '' @
     [CHR 0xEA, CHR 0xB5, CHR 0xAC, CHR 0xEC, CHR 0x84, CHR 0xB1] @
     [CHR 0xEB, CHR 0x90, CHR 0x98, CHR 0xEC, CHR 0xA7, CHR 0x80] @ '' '' @
     [CHR 0xEC, CHR 0x95, CHR 0x8A, CHR 0xEC, CHR 0x95, CHR 0x98] @
     [CHR 0xEC, CHR 0x8A, CHR 0xB5, CHR 0xEB, CHR 0x8B, CHR 0x88] @
     [CHR 0xEB, CHR 0x8B, CHR 0xA4] @ ''.''"

text \<open>
  The truth value of an \<open>Optional[str]\<close>, as \<open>if api_key\<close> tests it: \<open>None\<close> and the
  empty string are false, every other string is true.
\<close>

definition truthy :: "string option \<Rightarrow> bool" where
  "truthy v = (case v of None \<Rightarrow> False | Some s \<Rightarrow> s \<noteq> [])"

text \<open>
  \<open>__init__\<close>: \<open>self.llm\<close> is \<open>ChatOpenAI(...) if api_key else None\<close>, and the prompt
  template is built from \<open>MEDICAL_PROMPT\<close> in either case.
\<close>

definition init :: "string \<Rightarrow> real \<Rightarrow> string option \<Rightarrow> generator" where
  "init m t api_key =
     \<lparr>llm = (if truthy api_key
             then Some \<lparr>model = m, temperature = t, openai_api_key = api_key\<rparr>
             else None),
      prompt = \<lparr>template = MEDICAL_PROMPT,
                input_variables = [''context'', ''question'']\<rparr>\<rparr>"

text \<open>
  \<open>_format_context\<close>: the loop over \<open>enumerate(documents, 1)\<close>, with the counter \<open>i\<close>
  and the list \<open>parts\<close> built so far.
\<close>

fun format_context_loop ::
  "(pyval \<Rightarrow> string) \<Rightarrow> int \<Rightarrow> document list \<Rightarrow> string list \<Rightarrow> error + string list" where
  "format_context_loop py_repr i [] parts = Inr parts"
| "format_context_loop py_repr i (doc # rest) parts =
     (case py_get (dict_get doc ''metadata'' (PDict [])) ''title'' (PStr ''Unknown'') of
        Inl e \<Rightarrow> Inl e
      | Inr t \<Rightarrow>
          (let c = dict_get doc ''content'' (PStr []);
               part = ''['' @ str_int i @ ''] '' @ py_format py_repr t
                        @ ''\<newline>'' @ py_format py_repr c
           in format_context_loop py_repr (i + 1) rest (parts @ [part])))"

definition format_context ::
  "(pyval \<Rightarrow> string) \<Rightarrow> generator \<Rightarrow> document list \<Rightarrow> error + string" where
  "format_context py_repr self documents =
     (case format_context_loop py_repr 1 documents [] of
        Inl e \<Rightarrow> Inl e
      | Inr parts \<Rightarrow> Inr (str_join ''\<newline>\<newline>'' parts))"

text \<open>
  \<open>_extract_citations\<close>: the loop over \<open>enumerate(documents, 1)\<close>. The metadata of a
  document is read only when its marker occurs in the answer.
\<close>

fun extract_citations_loop ::
  "string \<Rightarrow> int \<Rightarrow> document list \<Rightarrow> citation list \<Rightarrow> error + citation list" where
  "extract_citations_loop ans i [] citations = Inr citations"
| "extract_citations_loop ans i (doc # rest) citations =
     (if str_contains (''['' @ str_int i @ '']'') ans then
        (let metadata = dict_get doc ''metadata'' (PDict []) in
         case py_get metadata ''title'' PNone of
           Inl e \<Rightarrow> Inl e
         | Inr t \<Rightarrow>
         (case py_get metadata ''authors'' PNone of
           Inl e \<Rightarrow> Inl e
         | Inr a \<Rightarrow>
         (case py_get metadata ''year'' PNone of
           Inl e \<Rightarrow> Inl e
         | Inr y \<Rightarrow>
             extract_citations_loop ans (i + 1) rest
               (citations @ [\<lparr>index = i, title = t, authors = a, year = y\<rparr>]))))
      else extract_citations_loop ans (i + 1) rest citations)"

definition extract_citations ::
  "generator \<Rightarrow> string \<Rightarrow> document list \<Rightarrow> error + citation list" where
  "extract_citations self ans documents = extract_citations_loop ans 1 documents []"

text \<open>
  \<open>generate\<close>. The chain \<open>self.prompt | self.llm\<close> belongs to the client library: it is
  the parameter \<open>invoke\<close>, which receives the prompt template, the client and the input
  dictionary, and returns the content of the reply or the error it raises. The second
  component of the result lists the inputs sent to the chain, in order.
\<close>

type_synonym chain_input = "(string \<times> string) list"

definition generate ::
  "(pyval \<Rightarrow> string) \<Rightarrow> (prompt_template \<Rightarrow> chat_model \<Rightarrow> chain_input \<Rightarrow> error + string) \<Rightarrow>
   generator \<Rightarrow> string \<Rightarrow> document list \<Rightarrow> (error + generated_answer) \<times> chain_input list" where
  "generate py_repr invoke self question documents =
     (case llm self of
        None \<Rightarrow> (Inr \<lparr>answer = NOT_CONFIGURED, sources = []\<rparr>, [])
      | Some client \<Rightarrow>
          (case format_context py_repr self documents of
             Inl e \<Rightarrow> (Inl e, [])
           | Inr context \<Rightarrow>
               (let input = [(''context'', context), (''question'', question)] in
                case invoke (prompt self) client input of
                  Inl e \<Rightarrow> (Inl e, [input])
                | Inr content \<Rightarrow>
                    (case extract_citations self content documents of
                       Inl e \<Rightarrow> (Inl e, [input])
                     | Inr citations \<Rightarrow>
                         (Inr \<lparr>answer = content, sources = citations\<rparr>, [input])))))"

section \<open>Specification vocabulary\<close>

text \<open>
  The definitions of this section are not translations of the code. They say, in the
  words of the specification, what the loops of the code are compared with.
\<close>

text \<open>\<open>enumerate(xs, start)\<close> as a list of pairs.\<close>

fun py_enumerate :: "int \<Rightarrow> 'a list \<Rightarrow> (int \<times> 'a) list" where
  "py_enumerate i [] = []"
| "py_enumerate i (x # xs) = (i, x) # py_enumerate (i + 1) xs"

fun is_dict :: "pyval \<Rightarrow> bool" where
  "is_dict (PDict d) = True"
| "is_dict PNone = False"
| "is_dict (PInt n) = False"
| "is_dict (PStr s) = False"
| "is_dict (PList vs) = False"

text \<open>
  A document conforms to the data model when its \<open>metadata\<close> entry, if there is one,
  is a mapping. Every key may be missing.
\<close>

definition metadata_ok :: "document \<Rightarrow> bool" where
  "metadata_ok doc = is_dict (dict_get doc ''metadata'' (PDict []))"

text \<open>The entry \<open>k\<close> of the metadata of a document, if the document has one.\<close>

definition meta_field :: "document \<Rightarrow> string \<Rightarrow> pyval option" where
  "meta_field doc k =
     (case map_of doc ''metadata'' of
        Some (PDict m) \<Rightarrow> map_of m k
      | _ \<Rightarrow> None)"

definition or_default :: "pyval \<Rightarrow> pyval option \<Rightarrow> pyval" where
  "or_default dflt v = (case v of None \<Rightarrow> dflt | Some x \<Rightarrow> x)"

text \<open>The citation of document \<open>i\<close>: its index, title, authors and year.\<close>

definition citation_of :: "int \<Rightarrow> document \<Rightarrow> citation" where
  "citation_of i doc =
     \<lparr>index = i,
      title = or_default PNone (meta_field doc ''title''),
      authors = or_default PNone (meta_field doc ''authors''),
      year = or_default PNone (meta_field doc ''year'')\<rparr>"

definition is_cited :: "string \<Rightarrow> int \<times> document \<Rightarrow> bool" where
  "is_cited ans p = str_contains (marker (fst p)) ans"

definition cited :: "string \<Rightarrow> int \<Rightarrow> document list \<Rightarrow> citation list" where
  "cited ans i docs =
     map (\<lambda>p. citation_of (fst p) (snd p)) (filter (is_cited ans) (py_enumerate i docs))"

text \<open>The title and the content as they appear in the context block.\<close>

definition title_text :: "(pyval \<Rightarrow> string) \<Rightarrow> document \<Rightarrow> string" where
  "title_text py_repr doc =
     (case meta_field doc ''title'' of None \<Rightarrow> ''Unknown'' | Some t \<Rightarrow> py_format py_repr t)"

definition content_text :: "(pyval \<Rightarrow> string) \<Rightarrow> document \<Rightarrow> string" where
  "content_text py_repr doc =
     (case map_of doc ''content'' of None \<Rightarrow> [] | Some c \<Rightarrow> py_format py_repr c)"

text \<open>The rendering \<open>[i] <title>\n<content>\<close> of document \<open>i\<close>.\<close>

definition render_document :: "(pyval \<Rightarrow> string) \<Rightarrow> int \<times> document \<Rightarrow> string" where
  "render_document py_repr p =
     marker (fst p) @ '' '' @ title_text py_repr (snd p)
       @ ''\<newline>'' @ content_text py_repr (snd p)"

text \<open>
  The lines of a context block. \<open>lines_starting_with m ctx\<close> are the lines of \<open>ctx\<close>
  that start with \<open>m\<close>; \<open>marked n l\<close> says that the line \<open>l\<close> starts with one of the
  markers \<open>[1]\<close>, ..., \<open>[n]\<close>.
\<close>

definition lines_starting_with :: "string \<Rightarrow> string \<Rightarrow> string list" where
  "lines_starting_with m ctx = filter (\<lambda>l. starts_with l m) (split_lines ctx)"

definition marked :: "int \<Rightarrow> string \<Rightarrow> bool" where
  "marked n l = list_ex (\<lambda>k. starts_with l (marker k)) [1..n]"

definition marked_lines :: "int \<Rightarrow> string \<Rightarrow> string list" where
  "marked_lines n ctx = filter (marked n) (split_lines ctx)"

text \<open>
  The first line of the rendering of a document, and the lines after it: the further
  lines of the title, then the lines of the content.
\<close>

definition header_line :: "(pyval \<Rightarrow> string) \<Rightarrow> int \<times> document \<Rightarrow> string" where
  "header_line py_repr p =
     marker (fst p) @ '' '' @ hd (split_lines (title_text py_repr (snd p)))"

definition body_lines :: "(pyval \<Rightarrow> string) \<Rightarrow> document \<Rightarrow> string list" where
  "body_lines py_repr doc =
     tl (split_lines (title_text py_repr doc)) @ split_lines (content_text py_repr doc)"

definition marker_free :: "(pyval \<Rightarrow> string) \<Rightarrow> int \<Rightarrow> document \<Rightarrow> bool" where
  "marker_free py_repr n doc = list_all (\<lambda>l. \<not> marked n l) (body_lines py_repr doc)"

text \<open>Reading a decimal numeral back, the inverse of \<open>str_nat\<close>.\<close>

definition digit_val :: "char \<Rightarrow> nat" where
  "digit_val c = of_char c - 48"

definition read_nat :: "string \<Rightarrow> nat" where
  "read_nat s = foldl (\<lambda>a c. 10 * a + digit_val c) 0 s"

subsection \<open>Sample data\<close>

text \<open>
  The two documents of the specification's example, a document with no key at all,
  a document whose content repeats a marker, and stand-ins for the two parameters.
\<close>

definition doc_A :: document where
  "doc_A = [(''metadata'', PDict [(''title'', PStr ''A'')])]"

definition doc_B :: document where
  "doc_B = [(''metadata'', PDict [(''title'', PStr ''B'')])]"

definition doc_bare :: document where
  "doc_bare = []"

definition doc_echo :: document where
  "doc_echo = [(''content'', PStr ''[1] x'')]"

definition sample_repr :: "pyval \<Rightarrow> string" where
  "sample_repr v = ''<container>''"

definition sample_invoke :: "prompt_template \<Rightarrow> chat_model \<Rightarrow> chain_input \<Rightarrow> error + string" where
  "sample_invoke p c inp = Inr ''See [1] and [2].''"

definition disabled :: generator where
  "disabled = init ''gpt-4'' (3 / 10) None"

definition configured :: generator where
  "configured = init ''gpt-4'' (3 / 10) (Some ''sk-test'')"

section \<open>Python's \<open>enumerate\<close>\<close>

lemma length_py_enumerate [simp]: "length (py_enumerate i xs) = length xs"
  by (induction xs arbitrary: i) auto

lemma nth_py_enumerate:
  "k < length xs \<Longrightarrow> py_enumerate i xs ! k = (i + int k, xs ! k)"
proof (induction xs arbitrary: i k)
  case Nil
  then show ?case by simp
next
  case (Cons x xs)
  then show ?case by (cases k) auto
qed

lemma map_snd_py_enumerate [simp]: "map snd (py_enumerate i xs) = xs"
  by (induction xs arbitrary: i) auto

lemma py_enumerate_lower: "p \<in> set (py_enumerate i xs) \<Longrightarrow> i \<le> fst p"
  by (induction xs arbitrary: i) force+

lemma py_enumerate_mem:
  "(j, d) \<in> set (py_enumerate i xs) \<longleftrightarrow> (i \<le> j \<and> j < i + int (length xs) \<and> d = xs ! nat (j - i))"
proof (induction xs arbitrary: i)
  case Nil
  show ?case by simp
next
  case (Cons x xs)
  show ?case
  proof (cases "j = i")
    case True
    then show ?thesis using py_enumerate_lower[of "(j, d)" "i + 1" xs] by (auto simp: Cons.IH)
  next
    case False
    have "nat (j - i) = Suc (nat (j - (i + 1)))" if "i < j"
      using that by simp
    then show ?thesis using False by (auto simp: Cons.IH)
  qed
qed

lemma sorted_py_enumerate: "sorted_wrt (<) (map fst (py_enumerate i xs))"
proof (induction xs arbitrary: i)
  case Nil
  show ?case by simp
next
  case (Cons x xs)
  have "i < fst p" if "p \<in> set (py_enumerate (i + 1) xs)" for p
    using py_enumerate_lower[OF that] by simp
  then show ?case using Cons.IH by auto
qed

lemma filter_fst_py_enumerate:
  "filter (\<lambda>p. fst p = j) (py_enumerate i xs) =
     (if i \<le> j \<and> j < i + int (length xs) then [(j, xs ! nat (j - i))] else [])"
proof (induction xs arbitrary: i)
  case Nil
  show ?case by simp
next
  case (Cons x xs)
  have "nat (j - i) = Suc (nat (j - (i + 1)))" if "i < j"
    using that by simp
  then show ?case by (auto simp: Cons.IH)
qed

section \<open>The loops in closed form\<close>

text \<open>
  Reading the metadata of a document raises exactly when the entry is present and is
  not a mapping. Each loop then either raises \<open>AttributeError\<close> or returns the list
  that the specification describes.
\<close>

lemma py_get_metadata:
  "py_get (dict_get doc ''metadata'' (PDict [])) k dflt =
     (if metadata_ok doc then Inr (or_default dflt (meta_field doc k)) else Inl AttributeError)"
  by (cases "dict_get doc ''metadata'' (PDict [])")
     (auto simp: metadata_ok_def meta_field_def dict_get_def or_default_def split: option.splits)

lemma extract_loop_eq:
  "extract_citations_loop ans i docs acc =
     (if list_all (\<lambda>p. is_cited ans p \<longrightarrow> metadata_ok (snd p)) (py_enumerate i docs)
      then Inr (acc @ cited ans i docs) else Inl AttributeError)"
proof (induction docs arbitrary: i acc)
  case Nil
  show ?case by (simp add: cited_def)
next
  case (Cons d ds)
  show ?case
    by (simp add: Cons.IH py_get_metadata cited_def is_cited_def citation_of_def marker_def Let_def)
qed

lemma format_loop_eq:
  "format_context_loop r i docs acc =
     (if list_all metadata_ok docs
      then Inr (acc @ map (render_document r) (py_enumerate i docs))
      else Inl AttributeError)"
proof (induction docs arbitrary: i acc)
  case Nil
  show ?case by simp
next
  case (Cons d ds)
  have t: "py_format r (or_default (PStr ''Unknown'') (meta_field d ''title'')) = title_text r d"
    by (simp add: title_text_def or_default_def split: option.splits)
  have c: "py_format r (dict_get d ''content'' (PStr [])) = content_text r d"
    by (simp add: content_text_def dict_get_def split: option.splits)
  show ?case
    by (simp add: Cons.IH py_get_metadata Let_def t c render_document_def marker_def)
qed

lemma format_context_eq:
  "format_context r self docs =
     (if list_all metadata_ok docs
      then Inr (str_join ''\<newline>\<newline>'' (map (render_document r) (py_enumerate 1 docs)))
      else Inl AttributeError)"
  by (simp add: format_context_def format_loop_eq)

lemma format_loop_parts:
  assumes "list_all metadata_ok docs"
  shows "format_context_loop r 1 docs [] = Inr (map (render_document r) (py_enumerate 1 docs))"
  using assms by (simp add: format_loop_eq)

lemma extract_total:
  "list_all metadata_ok docs \<Longrightarrow> extract_citations self ans docs = Inr (cited ans 1 docs)"
proof -
  assume ok: "list_all metadata_ok docs"
  have "metadata_ok (snd p)" if "p \<in> set (py_enumerate 1 docs)" for p
  proof -
    have "snd p \<in> set (map snd (py_enumerate 1 docs))" using that by (simp del: map_snd_py_enumerate)
    then show ?thesis using ok by (simp add: list_all_iff)
  qed
  then show ?thesis by (simp add: extract_citations_def extract_loop_eq list_all_iff)
qed

lemma extract_Inr:
  "extract_citations self ans docs = Inr cs \<Longrightarrow> cs = cited ans 1 docs"
  by (simp add: extract_citations_def extract_loop_eq split: if_splits)

lemma cited_mem:
  "c \<in> set (cited ans i docs) \<longleftrightarrow>
     (i \<le> index c \<and> index c < i + int (length docs) \<and> str_contains (marker (index c)) ans
      \<and> c = citation_of (index c) (docs ! nat (index c - i)))"
proof
  assume "c \<in> set (cited ans i docs)"
  then obtain j d where jd: "(j, d) \<in> set (py_enumerate i docs)" "is_cited ans (j, d)"
    and c: "c = citation_of j d"
    by (auto simp: cited_def)
  have "index c = j" using c by (simp add: citation_of_def)
  then show "i \<le> index c \<and> index c < i + int (length docs) \<and> str_contains (marker (index c)) ans
      \<and> c = citation_of (index c) (docs ! nat (index c - i))"
    using jd c by (simp add: py_enumerate_mem is_cited_def)
next
  assume a: "i \<le> index c \<and> index c < i + int (length docs) \<and> str_contains (marker (index c)) ans
      \<and> c = citation_of (index c) (docs ! nat (index c - i))"
  then have "(index c, docs ! nat (index c - i)) \<in> set (py_enumerate i docs)"
    by (simp add: py_enumerate_mem)
  moreover have "is_cited ans (index c, docs ! nat (index c - i))"
    using a by (simp add: is_cited_def)
  ultimately have "citation_of (index c) (docs ! nat (index c - i)) \<in> set (cited ans i docs)"
    unfolding cited_def by force
  then show "c \<in> set (cited ans i docs)" using a by simp
qed

lemma index_cited: "map index (cited ans i docs) = map fst (filter (is_cited ans) (py_enumerate i docs))"
  by (simp add: cited_def citation_of_def)

lemma sorted_cited: "sorted_wrt (<) (map index (cited ans i docs))"
  unfolding index_cited
  using sorted_py_enumerate[of i docs] 
  by (simp add: sorted_wrt_map sorted_wrt_filter)

section \<open>Decimal numerals and markers\<close>

text \<open>
  \<open>read_nat\<close> inverts \<open>str_nat\<close>, so two different indices never have the same marker.
\<close>

lemma digit_val_digit_char: "d < 10 \<Longrightarrow> digit_val (digit_char d) = d"
proof -
  assume "d < 10"
  then have "d \<in> {0, 1, 2, 3, 4, 5, 6, 7, 8, 9}" by auto
  then show ?thesis by (auto simp: digit_val_def digit_char_def)
qed

lemma digit_char_in: "digit_char d \<in> set ''0123456789''"
  unfolding digit_char_def by (rule nth_mem) simp

lemma read_nat_snoc: "read_nat (s @ [c]) = 10 * read_nat s + digit_val c"
  by (simp add: read_nat_def)

lemma read_str_nat: "read_nat (str_nat n) = n"
proof (induction n rule: str_nat.induct)
  case (1 n)
  show ?case
  proof (cases "n < 10")
    case True
    then show ?thesis
      by (subst str_nat.simps) (simp add: read_nat_def digit_val_digit_char)
  next
    case False
    then have "read_nat (str_nat n) = 10 * read_nat (str_nat (n div 10)) + digit_val (digit_char (n mod 10))"
      by (subst str_nat.simps) (simp add: read_nat_snoc)
    also have "\<dots> = 10 * (n div 10) + n mod 10"
      using False by (simp add: "1.IH" digit_val_digit_char)
    finally show ?thesis by simp
  qed
qed

lemma str_nat_inj: "str_nat m = str_nat n \<Longrightarrow> m = n"
  by (metis read_str_nat)

lemma set_str_nat: "set (str_nat n) \<subseteq> set ''0123456789''"
proof (induction n rule: str_nat.induct)
  case (1 n)
  show ?case
  proof (cases "n < 10")
    case True
    then show ?thesis using digit_char_in[of n] by (subst str_nat.simps) simp
  next
    case False
    then show ?thesis using "1.IH" digit_char_in[of "n mod 10"] by (subst str_nat.simps) simp
  qed
qed

lemma str_nat_not_Nil: "str_nat n \<noteq> []"
  by (subst str_nat.simps) simp

lemma str_nat_chars: "c \<in> set (str_nat n) \<Longrightarrow> c \<in> set ''0123456789''"
  using set_str_nat by (rule subsetD)

lemma str_nat_no_minus: "CHR ''-'' # s \<noteq> str_nat n"
proof
  assume "CHR ''-'' # s = str_nat n"
  then have "CHR ''-'' \<in> set (str_nat n)" by (metis list.set_intros(1))
  then have "CHR ''-'' \<in> set ''0123456789''" by (rule str_nat_chars)
  then show False by simp
qed

lemma str_int_neg: "i < 0 \<Longrightarrow> str_int i = CHR ''-'' # str_nat (nat (- i))"
  by (simp add: str_int_def)

lemma str_int_nonneg: "\<not> i < 0 \<Longrightarrow> str_int i = str_nat (nat i)"
  by (simp add: str_int_def)

lemma str_int_chars: "c \<in> set (str_int i) \<Longrightarrow> c \<in> set ''-0123456789''"
proof (cases "i < 0")
  case True
  assume "c \<in> set (str_int i)"
  then have "c = CHR ''-'' \<or> c \<in> set (str_nat (nat (- i)))"
    unfolding str_int_neg [OF True] by simp
  then show ?thesis using str_nat_chars [of c "nat (- i)"] by fastforce
next
  case False
  assume "c \<in> set (str_int i)"
  then have "c \<in> set (str_nat (nat i))" unfolding str_int_nonneg [OF False] .
  then have "c \<in> set ''0123456789''" by (rule str_nat_chars)
  then show ?thesis by simp
qed

lemma str_int_inj: "str_int i = str_int j \<Longrightarrow> i = j"
proof -
  assume e: "str_int i = str_int j"
  show ?thesis
  proof (cases "i < 0")
    case i: True
    show ?thesis
    proof (cases "j < 0")
      case j: True
      from e have "str_nat (nat (- i)) = str_nat (nat (- j))"
        unfolding str_int_neg [OF i] str_int_neg [OF j] by simp
      then have "nat (- i) = nat (- j)" by (rule str_nat_inj)
      with i j show ?thesis by simp
    next
      case j: False
      from e show ?thesis
        unfolding str_int_neg [OF i] str_int_nonneg [OF j] using str_nat_no_minus by blast
    qed
  next
    case i: False
    show ?thesis
    proof (cases "j < 0")
      case j: True
      from e [symmetric] show ?thesis
        unfolding str_int_neg [OF j] str_int_nonneg [OF i] using str_nat_no_minus by blast
    next
      case j: False
      from e have "str_nat (nat i) = str_nat (nat j)"
        unfolding str_int_nonneg [OF i] str_int_nonneg [OF j] .
      then have "nat i = nat j" by (rule str_nat_inj)
      with i j show ?thesis by simp
    qed
  qed
qed

lemma str_int_small: "str_int 1 = ''1''" "str_int 2 = ''2''" "str_int 3 = ''3''"
  by (simp_all add: str_int_def str_nat.simps digit_char_def)

lemma marker_small: "marker 1 = ''[1]''" "marker 2 = ''[2]''" "marker 3 = ''[3]''"
  by (simp_all add: marker_def str_int_small)

lemma upto_small: "[1..1] = [1]" "[1..2] = [1, 2]" "[1..3] = [1, 2, 3]"
  by (simp_all add: upto.simps)

section \<open>Prefixes and substrings\<close>

text \<open>
  \<open>starts_with\<close> and \<open>str_contains\<close> are the prefix and the substring relation.
\<close>

lemma starts_with_iff: "starts_with s p \<longleftrightarrow> (\<exists>t. s = p @ t)"
  by (induction s p rule: starts_with.induct) auto

lemma starts_with_append [simp]: "starts_with (p @ t) p"
  by (simp add: starts_with_iff)

lemma starts_with_Nil_iff [simp]: "starts_with [] p \<longleftrightarrow> p = []"
  by (cases p) auto

lemma str_contains_iff: "str_contains sub s \<longleftrightarrow> (\<exists>p t. s = p @ sub @ t)"
proof (induction s)
  case Nil
  show ?case by auto
next
  case (Cons c s)
  show ?case
  proof
    assume "str_contains sub (c # s)"
    then consider "starts_with (c # s) sub" | "str_contains sub s" by auto
    then show "\<exists>p t. c # s = p @ sub @ t"
    proof cases
      case 1
      then obtain t where "c # s = sub @ t" by (auto simp: starts_with_iff)
      then have "c # s = [] @ sub @ t" by simp
      then show ?thesis by blast
    next
      case 2
      then obtain p t where "s = p @ sub @ t" using Cons.IH by blast
      then have "c # s = (c # p) @ sub @ t" by simp
      then show ?thesis by blast
    qed
  next
    assume "\<exists>p t. c # s = p @ sub @ t"
    then obtain p t where e: "c # s = p @ sub @ t" by blast
    show "str_contains sub (c # s)"
    proof (cases p)
      case Nil
      then have "starts_with (c # s) sub" using e by (simp add: starts_with_iff)
      then show ?thesis by simp
    next
      case (Cons a p')
      then have "s = p' @ sub @ t" using e by simp
      then show ?thesis using Cons.IH by auto
    qed
  qed
qed

lemma append_sep_eq:
  "x \<notin> set a \<Longrightarrow> x \<notin> set b \<Longrightarrow> a @ x # r = b @ x # t \<Longrightarrow> a = b"
proof (induction a arbitrary: b)
  case Nil
  then show ?case by (cases b) auto
next
  case (Cons y a)
  then show ?case by (cases b) auto
qed

lemma marker_prefix_iff:
  "starts_with (marker j @ rest) (marker i) \<longleftrightarrow> i = j"
proof
  assume "starts_with (marker j @ rest) (marker i)"
  then obtain t where "marker j @ rest = marker i @ t" by (auto simp: starts_with_iff)
  then have e: "str_int j @ CHR '']'' # rest = str_int i @ CHR '']'' # t"
    by (simp add: marker_def)
  have "CHR '']'' \<notin> set (str_int k)" for k
    using str_int_chars [of "CHR '']''" k] by fastforce
  then have "CHR '']'' \<notin> set (str_int j)" "CHR '']'' \<notin> set (str_int i)"
    by blast+
  then have "str_int j = str_int i" using e by (rule append_sep_eq)
  then show "i = j" by (rule str_int_inj [symmetric])
next
  assume "i = j"
  then show "starts_with (marker j @ rest) (marker i)" by simp
qed

lemma marker_no_newline: "CHR ''\<newline>'' \<notin> set (marker i)"
proof -
  have "CHR ''\<newline>'' \<notin> set (str_int i)"
    using str_int_chars [of "CHR ''\<newline>''" i] by fastforce
  then show ?thesis by (simp add: marker_def)
qed

lemma marked_iff: "marked n l \<longleftrightarrow> (\<exists>k. 1 \<le> k \<and> k \<le> n \<and> starts_with l (marker k))"
  by (auto simp: marked_def list_ex_iff)

lemma not_marked_Nil [simp]: "\<not> marked n []"
  by (simp add: marked_iff marker_def)

section \<open>Lines of the context block\<close>

lemma split_lines_not_Nil [simp]: "split_lines s \<noteq> []"
  by (induction s) (auto split: list.splits)

lemma split_lines_newline:
  "split_lines (a @ CHR ''\<newline>'' # b) = split_lines a @ split_lines b"
proof (induction a)
  case Nil
  show ?case by simp
next
  case (Cons c a)
  obtain l ls where "split_lines a = l # ls"
    by (cases "split_lines a") auto
  then show ?case using Cons.IH by simp
qed

lemma split_lines_prefix:
  "CHR ''\<newline>'' \<notin> set a \<Longrightarrow>
     split_lines (a @ s) = (a @ hd (split_lines s)) # tl (split_lines s)"
proof (induction a)
  case Nil
  show ?case by simp
next
  case (Cons c a)
  then show ?case by auto
qed

lemma lines_render_document:
  "split_lines (render_document r p) = header_line r p # body_lines r (snd p)"
proof -
  have n: "CHR ''\<newline>'' \<notin> set (marker (fst p) @ '' '')"
    using marker_no_newline [of "fst p"] by simp
  have "split_lines (render_document r p) =
          split_lines ((marker (fst p) @ '' '') @ title_text r (snd p))
            @ split_lines (content_text r (snd p))"
    unfolding render_document_def
    using split_lines_newline [of "marker (fst p) @ '' '' @ title_text r (snd p)" "content_text r (snd p)"]
    by simp
  also have "\<dots> = header_line r p # body_lines r (snd p)"
    unfolding split_lines_prefix [OF n] by (simp add: header_line_def body_lines_def)
  finally show ?thesis .
qed

lemma filter_lines_join:
  assumes "\<not> P []"
  shows "filter P (split_lines (str_join ''\<newline>\<newline>'' parts)) =
           concat (map (\<lambda>part. filter P (split_lines part)) parts)"
proof (induction parts)
  case Nil
  show ?case using assms by simp
next
  case (Cons p ps)
  show ?case
  proof (cases ps)
    case Nil
    then show ?thesis by simp
  next
    case (Cons q qs)
    have "split_lines (str_join ''\<newline>\<newline>'' (p # q # qs)) =
            split_lines p @ [] # split_lines (str_join ''\<newline>\<newline>'' (q # qs))"
      using split_lines_newline [of p "CHR ''\<newline>'' # str_join ''\<newline>\<newline>'' (q # qs)"]
      by simp
    then show ?thesis using assms Cons.IH Cons by simp
  qed
qed

lemma marked_header:
  "1 \<le> fst p \<Longrightarrow> fst p \<le> n \<Longrightarrow> marked n (header_line r p)"
  unfolding marked_iff header_line_def using starts_with_append by blast

lemma marked_lines_render:
  assumes "1 \<le> fst p" and "fst p \<le> n" and "marker_free r n (snd p)"
  shows "filter (marked n) (split_lines (render_document r p)) = [header_line r p]"
proof -
  have "filter (marked n) (body_lines r (snd p)) = []"
    using assms(3) by (simp add: marker_free_def list_all_iff)
  then show ?thesis
    using marked_header [OF assms(1,2)] by (simp add: lines_render_document)
qed

lemma marked_lines_context:
  assumes "list_all (marker_free r (int (length docs))) docs"
  shows "marked_lines (int (length docs))
           (str_join ''\<newline>\<newline>'' (map (render_document r) (py_enumerate 1 docs))) =
         map (header_line r) (py_enumerate 1 docs)"
proof -
  let ?n = "int (length docs)"
  have one: "filter (marked ?n) (split_lines (render_document r p)) = [header_line r p]"
    if "p \<in> set (py_enumerate 1 docs)" for p
  proof -
    obtain j d where p: "p = (j, d)" by (cases p)
    with that have m: "1 \<le> j \<and> j < 1 + ?n \<and> d = docs ! nat (j - 1)"
      by (simp add: py_enumerate_mem)
    then have "nat (j - 1) < length docs" by linarith
    then have "d \<in> set docs" using m by simp
    then have "marker_free r ?n d" using assms by (simp add: list_all_iff)
    then show ?thesis using m p marked_lines_render [of p ?n r] by simp
  qed
  have "marked_lines ?n (str_join ''\<newline>\<newline>'' (map (render_document r) (py_enumerate 1 docs))) =
          concat (map (\<lambda>part. filter (marked ?n) (split_lines part))
                   (map (render_document r) (py_enumerate 1 docs)))"
    unfolding marked_lines_def by (rule filter_lines_join) simp
  also have "\<dots> = concat (map (\<lambda>p. [header_line r p]) (py_enumerate 1 docs))"
    using one by (simp add: comp_def cong: map_cong)
  also have "\<dots> = map (header_line r) (py_enumerate 1 docs)"
    by (induction "py_enumerate 1 docs") simp_all
  finally show ?thesis .
qed

lemma header_prefix_iff: "starts_with (header_line r p) (marker i) \<longleftrightarrow> fst p = i"
  unfolding header_line_def using marker_prefix_iff [of "fst p" _ i] by auto

lemma lines_starting_with_marker:
  assumes "1 \<le> i" and "i \<le> n"
    and "marked_lines n ctx = map (header_line r) (py_enumerate 1 docs)"
    and "n = int (length docs)"
  shows "lines_starting_with (marker i) ctx = [header_line r (i, docs ! nat (i - 1))]"
proof -
  have imp: "starts_with l (marker i) \<Longrightarrow> marked n l" for l
    using assms(1,2) marked_iff by blast
  have "lines_starting_with (marker i) ctx =
          filter (\<lambda>l. starts_with l (marker i)) (marked_lines n ctx)"
    unfolding lines_starting_with_def marked_lines_def filter_filter
    using imp by (metis (mono_tags, lifting))
  also have "\<dots> = map (header_line r) (filter (\<lambda>p. fst p = i) (py_enumerate 1 docs))"
    unfolding assms(3) by (simp add: filter_map comp_def header_prefix_iff)
  also have "\<dots> = [header_line r (i, docs ! nat (i - 1))]"
    using assms(1,2,4) by (simp add: filter_fst_py_enumerate)
  finally show ?thesis .
qed

section \<open>Evaluation on the sample data\<close>

lemmas eval_defs =
  extract_citations_def format_context_def str_int_small marker_small
  dict_get_def metadata_ok_def citation_of_def meta_field_def or_default_def
  doc_A_def doc_B_def doc_bare_def doc_echo_def sample_repr_def sample_invoke_def

lemmas eval_lines =
  marker_free_def body_lines_def title_text_def content_text_def marked_def
  header_line_def lines_starting_with_def marked_lines_def

section \<open>The claims of the specification\<close>

subsection \<open>Citations and markers\<close>

text \<open>
  C1: when citation extraction returns the list \<open>cs\<close>, a citation with index \<open>i\<close>
  (\<open>1 \<le> i \<le> N\<close>, the position of the document in the input) is in \<open>cs\<close> if and only if
  the answer text has the form \<open>pre @ "[i]" @ post\<close>, and every citation of \<open>cs\<close> carries
  the index, title, authors and year of the document at its index. Extraction returns
  whenever every metadata entry that is present is a mapping.
\<close>

theorem citation_iff_marker:
  "(list_all metadata_ok docs \<longrightarrow> (\<exists>cs. extract_citations self ans docs = Inr cs)) \<and>
   (\<forall>cs. extract_citations self ans docs = Inr cs \<longrightarrow>
      (\<forall>i. 1 \<le> i \<and> i \<le> int (length docs) \<longrightarrow>
         ((\<exists>c \<in> set cs. index c = i) \<longleftrightarrow>
          (\<exists>pre post. ans = pre @ ''['' @ str_int i @ '']'' @ post))) \<and>
      (\<forall>c \<in> set cs. 1 \<le> index c \<and> index c \<le> int (length docs) \<and>
         c = citation_of (index c) (docs ! nat (index c - 1))))"
proof (intro conjI allI impI)
  assume "list_all metadata_ok docs"
  then show "\<exists>cs. extract_citations self ans docs = Inr cs"
    using extract_total by blast
next
  fix cs i
  assume r: "extract_citations self ans docs = Inr cs" and i: "1 \<le> i \<and> i \<le> int (length docs)"
  have cs: "cs = cited ans 1 docs" using r by (rule extract_Inr)
  have sub: "(\<exists>pre post. ans = pre @ ''['' @ str_int i @ '']'' @ post) \<longleftrightarrow> str_contains (marker i) ans"
    by (simp add: str_contains_iff marker_def)
  show "(\<exists>c \<in> set cs. index c = i) \<longleftrightarrow> (\<exists>pre post. ans = pre @ ''['' @ str_int i @ '']'' @ post)"
    unfolding sub
  proof
    assume "\<exists>c \<in> set cs. index c = i"
    then show "str_contains (marker i) ans" unfolding cs by (auto simp: cited_mem)
  next
    assume m: "str_contains (marker i) ans"
    let ?c = "citation_of i (docs ! nat (i - 1))"
    have ic: "index ?c = i" by (simp add: citation_of_def)
    then have "?c \<in> set cs" unfolding cs using i m by (simp add: cited_mem)
    then show "\<exists>c \<in> set cs. index c = i" using ic by blast
  qed
next
  fix cs
  assume r: "extract_citations self ans docs = Inr cs"
  have cs: "cs = cited ans 1 docs" using r by (rule extract_Inr)
  show "\<forall>c \<in> set cs. 1 \<le> index c \<and> index c \<le> int (length docs) \<and>
         c = citation_of (index c) (docs ! nat (index c - 1))"
    unfolding cs by (auto simp: cited_mem)
qed

text \<open>
  The theorem at the two documents of the example and the answer \<open>See [2].\<close>
\<close>

theorem citation_iff_marker_witness:
  "list_all metadata_ok [doc_A, doc_B] \<and>
   extract_citations disabled ''See [2].'' [doc_A, doc_B] =
     Inr [\<lparr>index = 2, title = PStr ''B'', authors = PNone, year = PNone\<rparr>] \<and>
   ''See [2].'' = ''See '' @ ''['' @ str_int 2 @ '']'' @ ''.'' \<and>
   (\<exists>c \<in> set [\<lparr>index = 2, title = PStr ''B'', authors = PNone, year = PNone\<rparr>]. index c = 2) \<and>
   \<lparr>index = 2, title = PStr ''B'', authors = PNone, year = PNone\<rparr> = citation_of 2 ([doc_A, doc_B] ! nat (2 - 1))"
proof -
  let ?c = "\<lparr>index = 2, title = PStr ''B'', authors = PNone, year = PNone\<rparr>"
  have h: "list_all metadata_ok [doc_A, doc_B]"
    by (simp add: eval_defs)
  have r: "extract_citations disabled ''See [2].'' [doc_A, doc_B] = Inr [?c]"
    by (simp add: eval_defs)
  have s: "''See [2].'' = ''See '' @ ''['' @ str_int 2 @ '']'' @ ''.''"
    by (simp add: str_int_small)
  note t = citation_iff_marker [of "[doc_A, doc_B]" disabled "''See [2].''",
      THEN conjunct2, THEN spec, THEN mp, OF r]
  have b: "1 \<le> (2::int) \<and> 2 \<le> int (length [doc_A, doc_B])"
    by simp
  have iff: "(\<exists>c \<in> set [?c]. index c = 2) \<longleftrightarrow>
               (\<exists>pre post. ''See [2].'' = pre @ ''['' @ str_int 2 @ '']'' @ post)"
    using t [THEN conjunct1, THEN spec, THEN mp, OF b] .
  have car: "\<forall>c \<in> set [?c]. 1 \<le> index c \<and> index c \<le> int (length [doc_A, doc_B]) \<and>
               c = citation_of (index c) ([doc_A, doc_B] ! nat (index c - 1))"
    using t [THEN conjunct2] .
  from s have "\<exists>pre post. ''See [2].'' = pre @ ''['' @ str_int 2 @ '']'' @ post"
    by blast
  with iff have "\<exists>c \<in> set [?c]. index c = 2" by blast
  moreover have "?c = citation_of 2 ([doc_A, doc_B] ! nat (2 - 1))"
    using car [THEN bspec, of ?c] by simp
  ultimately show ?thesis using h r s by blast
qed

subsection \<open>No credential\<close>

text \<open>
  C2: a generator built without \<open>api_key\<close> answers every question and every documents
  list with the fixed placeholder and no sources; the result is a normal return, and
  nothing has been sent to the language model.
\<close>

theorem no_credential_placeholder:
  "generate r invoke (init m t None) question docs =
     (Inr \<lparr>answer = NOT_CONFIGURED, sources = []\<rparr>, [])"
  by (simp add: generate_def init_def truthy_def)

subsection \<open>The context block\<close>

text \<open>
  C3: for documents whose metadata entry, when present, is a mapping, the context block
  is the join with \<open>"\n\n"\<close> of the renderings \<open>[i] <title>\n<content>\<close>, \<open>i\<close> counting
  from 1 in input order; the title is \<open>Unknown\<close> when it is missing and the content is
  the empty string when it is missing.
\<close>

theorem context_block_rendering:
  assumes "list_all metadata_ok docs"
  shows "format_context r self docs =
           Inr (str_join ''\<newline>\<newline>'' (map (render_document r) (py_enumerate 1 docs))) \<and>
         (\<forall>i d. render_document r (i, d) =
            ''['' @ str_int i @ ''] '' @ title_text r d @ ''\<newline>'' @ content_text r d) \<and>
         (\<forall>d. meta_field d ''title'' = None \<longrightarrow> title_text r d = ''Unknown'') \<and>
         (\<forall>d t. meta_field d ''title'' = Some (PStr t) \<longrightarrow> title_text r d = t) \<and>
         (\<forall>d. map_of d ''content'' = None \<longrightarrow> content_text r d = []) \<and>
         (\<forall>d c. map_of d ''content'' = Some (PStr c) \<longrightarrow> content_text r d = c)"
  using assms
  by (simp add: format_context_eq render_document_def marker_def title_text_def content_text_def)

text \<open>
  The theorem at three documents: one with a title only, one with a content only, one
  with no key.
\<close>

theorem context_block_rendering_witness:
  "list_all metadata_ok [doc_A, doc_echo, doc_bare] \<and>
   format_context sample_repr disabled [doc_A, doc_echo, doc_bare] =
     Inr ''[1] A\<newline>\<newline>\<newline>[2] Unknown\<newline>[1] x\<newline>\<newline>[3] Unknown\<newline>'' \<and>
   meta_field doc_bare ''title'' = None \<and> title_text sample_repr doc_bare = ''Unknown'' \<and>
   meta_field doc_A ''title'' = Some (PStr ''A'') \<and> title_text sample_repr doc_A = ''A'' \<and>
   map_of doc_A ''content'' = None \<and> content_text sample_repr doc_A = [] \<and>
   map_of doc_echo ''content'' = Some (PStr ''[1] x'') \<and> content_text sample_repr doc_echo = ''[1] x''"
  using context_block_rendering [of "[doc_A, doc_echo, doc_bare]" sample_repr disabled]
  by (simp add: eval_defs eval_lines render_document_def)

subsection \<open>Lines that start with a marker\<close>

text \<open>
  C4, under a condition on the documents: lines are the pieces between newline
  characters. When no line that a document contributes after its header line (the
  further lines of its title and the lines of its content) starts with one of the
  markers \<open>[1]\<close>, ..., \<open>[N]\<close>, the lines of the context block that start with such a marker
  are the header lines of the documents, in input order, and for each \<open>i\<close> from 1 to
  \<open>N\<close> exactly one line starts with \<open>[i]\<close>: the header line of document \<open>i\<close>.
\<close>

theorem header_lines_when_marker_free:
  assumes "list_all metadata_ok docs"
    and "list_all (marker_free r (int (length docs))) docs"
  shows "\<exists>ctx. format_context r self docs = Inr ctx \<and>
           marked_lines (int (length docs)) ctx = map (header_line r) (py_enumerate 1 docs) \<and>
           (\<forall>i. 1 \<le> i \<and> i \<le> int (length docs) \<longrightarrow>
              lines_starting_with (marker i) ctx = [header_line r (i, docs ! nat (i - 1))])"
proof -
  let ?ctx = "str_join ''\<newline>\<newline>'' (map (render_document r) (py_enumerate 1 docs))"
  have c: "format_context r self docs = Inr ?ctx"
    using assms(1) by (simp add: format_context_eq)
  have m: "marked_lines (int (length docs)) ?ctx = map (header_line r) (py_enumerate 1 docs)"
    using assms(2) by (rule marked_lines_context)
  have "lines_starting_with (marker i) ?ctx = [header_line r (i, docs ! nat (i - 1))]"
    if "1 \<le> i \<and> i \<le> int (length docs)" for i
    using that m lines_starting_with_marker [of i "int (length docs)" ?ctx r docs] by simp
  with c m show ?thesis by blast
qed

text \<open>
  The theorem at a document with a title and a document with no key.
\<close>

theorem header_lines_when_marker_free_witness:
  "list_all metadata_ok [doc_A, doc_bare] \<and>
   list_all (marker_free sample_repr (int (length [doc_A, doc_bare]))) [doc_A, doc_bare] \<and>
   format_context sample_repr disabled [doc_A, doc_bare] =
     Inr ''[1] A\<newline>\<newline>\<newline>[2] Unknown\<newline>'' \<and>
   marked_lines 2 ''[1] A\<newline>\<newline>\<newline>[2] Unknown\<newline>'' = [''[1] A'', ''[2] Unknown''] \<and>
   lines_starting_with (marker 1) ''[1] A\<newline>\<newline>\<newline>[2] Unknown\<newline>'' = [''[1] A''] \<and>
   lines_starting_with (marker 2) ''[1] A\<newline>\<newline>\<newline>[2] Unknown\<newline>'' = [''[2] Unknown'']"
proof -
  let ?ctx = "''[1] A\<newline>\<newline>\<newline>[2] Unknown\<newline>''"
  have h1: "list_all metadata_ok [doc_A, doc_bare]"
    by (simp add: eval_defs)
  have h2: "list_all (marker_free sample_repr (int (length [doc_A, doc_bare]))) [doc_A, doc_bare]"
    by (simp add: eval_defs eval_lines upto_small)
  have c: "format_context sample_repr disabled [doc_A, doc_bare] = Inr ?ctx"
    by (simp add: eval_defs)
  have hA: "header_line sample_repr (1, doc_A) = ''[1] A''"
    and hB: "header_line sample_repr (2, doc_bare) = ''[2] Unknown''"
    by (simp_all add: eval_defs eval_lines)
  from header_lines_when_marker_free [OF h1 h2, of disabled] c
  have m: "marked_lines 2 ?ctx = map (header_line sample_repr) (py_enumerate 1 [doc_A, doc_bare])"
    and l: "\<And>i. 1 \<le> i \<and> i \<le> 2 \<Longrightarrow>
              lines_starting_with (marker i) ?ctx =
                [header_line sample_repr (i, [doc_A, doc_bare] ! nat (i - 1))]"
    by simp_all
  from m have "marked_lines 2 ?ctx = [''[1] A'', ''[2] Unknown'']"
    by (simp add: hA hB)
  moreover from l [of 1] have "lines_starting_with (marker 1) ?ctx = [''[1] A'']"
    by (simp add: hA)
  moreover from l [of 2] have "lines_starting_with (marker 2) ?ctx = [''[2] Unknown'']"
    by (simp add: hB)
  ultimately show ?thesis using h1 h2 c by blast
qed

text \<open>
  Without the condition the property fails: the content is copied into the context
  block as it is. For the single document \<open>{"content": "[1] x"}\<close> two lines of the
  context block start with \<open>[1]\<close>.
\<close>

theorem content_line_repeats_marker:
  "format_context sample_repr disabled [[(''content'', PStr ''[1] x'')]] =
     Inr ''[1] Unknown\<newline>[1] x'' \<and>
   lines_starting_with (marker 1) ''[1] Unknown\<newline>[1] x'' = [''[1] Unknown'', ''[1] x'']"
  by (simp add: eval_defs lines_starting_with_def)

subsection \<open>Order of the sources\<close>

text \<open>
  C5: extraction returns on every documents list whose metadata entries are mappings,
  and the indices of the returned sources increase strictly, so the sources follow the
  input order of the documents whatever the order of the markers in the answer. For two
  documents the answers \<open>See [1] and [2].\<close> and \<open>See [2] and [1].\<close> both give the citation
  of the first document and then the citation of the second.
\<close>

theorem sources_in_input_order:
  "(list_all metadata_ok docs \<longrightarrow> (\<exists>cs. extract_citations self ans docs = Inr cs)) \<and>
   (\<forall>cs. extract_citations self ans docs = Inr cs \<longrightarrow> sorted_wrt (<) (map index cs)) \<and>
   (metadata_ok d1 \<and> metadata_ok d2 \<longrightarrow>
      extract_citations self ''See [1] and [2].'' [d1, d2] = Inr [citation_of 1 d1, citation_of 2 d2] \<and>
      extract_citations self ''See [2] and [1].'' [d1, d2] = Inr [citation_of 1 d1, citation_of 2 d2])"
proof (intro conjI allI impI)
  assume "list_all metadata_ok docs"
  then show "\<exists>cs. extract_citations self ans docs = Inr cs"
    using extract_total by blast
next
  fix cs
  assume "extract_citations self ans docs = Inr cs"
  then have "cs = cited ans 1 docs" by (rule extract_Inr)
  then show "sorted_wrt (<) (map index cs)" by (simp only: sorted_cited)
next
  assume ok: "metadata_ok d1 \<and> metadata_ok d2"
  then have l: "list_all metadata_ok [d1, d2]" by simp
  show "extract_citations self ''See [1] and [2].'' [d1, d2] = Inr [citation_of 1 d1, citation_of 2 d2]"
    unfolding extract_total [OF l]
    by (simp add: cited_def is_cited_def marker_small)
  show "extract_citations self ''See [2] and [1].'' [d1, d2] = Inr [citation_of 1 d1, citation_of 2 d2]"
    unfolding extract_total [OF l]
    by (simp add: cited_def is_cited_def marker_small)
qed

text \<open>
  The theorem at the two documents of the example, with titles \<open>A\<close> and \<open>B\<close>.
\<close>

theorem sources_in_input_order_witness:
  "extract_citations disabled ''See [2] and [1].'' [doc_A, doc_B] =
     Inr [\<lparr>index = 1, title = PStr ''A'', authors = PNone, year = PNone\<rparr>,
          \<lparr>index = 2, title = PStr ''B'', authors = PNone, year = PNone\<rparr>] \<and>
   extract_citations disabled ''See [1] and [2].'' [doc_A, doc_B] =
     Inr [\<lparr>index = 1, title = PStr ''A'', authors = PNone, year = PNone\<rparr>,
          \<lparr>index = 2, title = PStr ''B'', authors = PNone, year = PNone\<rparr>] \<and>
   list_all metadata_ok [doc_A, doc_B] \<and> metadata_ok doc_A \<and> metadata_ok doc_B \<and>
   sorted_wrt (<) (map index [citation_of 1 doc_A, citation_of 2 doc_B])"
  using sources_in_input_order
    [where self = disabled and ans = "''See [2] and [1].''" and docs = "[doc_A, doc_B]"
       and ?d1.0 = doc_A and ?d2.0 = doc_B]
  by (simp add: eval_defs)

subsection \<open>Markers out of range\<close>

text \<open>
  C6: when the answer contains a marker \<open>[k]\<close> with \<open>k\<close> greater than the number of
  documents, no returned citation has index \<open>k\<close>.
\<close>

theorem out_of_range_marker_ignored:
  "(list_all metadata_ok docs \<longrightarrow> (\<exists>cs. extract_citations self ans docs = Inr cs)) \<and>
   (\<forall>cs k. extract_citations self ans docs = Inr cs \<and> int (length docs) < k \<and>
        str_contains (marker k) ans \<longrightarrow> (\<forall>c \<in> set cs. index c \<noteq> k))"
proof (intro conjI allI impI)
  assume "list_all metadata_ok docs"
  then show "\<exists>cs. extract_citations self ans docs = Inr cs"
    using extract_total by blast
next
  fix cs k
  assume a: "extract_citations self ans docs = Inr cs \<and> int (length docs) < k \<and>
        str_contains (marker k) ans"
  then have cs: "cs = cited ans 1 docs" using extract_Inr by blast
  show "\<forall>c \<in> set cs. index c \<noteq> k"
    unfolding cs using a by (auto simp: cited_mem)
qed

text \<open>
  The theorem at two documents and an answer that contains \<open>[3]\<close>.
\<close>

theorem out_of_range_marker_ignored_witness:
  "list_all metadata_ok [doc_A, doc_B] \<and> int (length [doc_A, doc_B]) < 3 \<and>
   str_contains (marker 3) ''See [1] and [3].'' \<and>
   extract_citations disabled ''See [1] and [3].'' [doc_A, doc_B] =
     Inr [\<lparr>index = 1, title = PStr ''A'', authors = PNone, year = PNone\<rparr>] \<and>
   \<not> (\<exists>c \<in> set [\<lparr>index = 1, title = PStr ''A'', authors = PNone, year = PNone\<rparr>]. index c = 3)"
  using out_of_range_marker_ignored [of "[doc_A, doc_B]" disabled "''See [1] and [3].''"]
  by (simp add: eval_defs)

subsection \<open>Empty documents list\<close>

text \<open>
  C7: for the empty documents list, context formatting returns the empty string and
  citation extraction returns the empty list for every answer text; both are normal
  returns.
\<close>

theorem empty_documents:
  "format_context py_repr self [] = Inr [] \<and> extract_citations self ans [] = Inr []"
  by (simp add: format_context_def extract_citations_def)

subsection \<open>Documents with missing keys\<close>

text \<open>
  C8: documents may lack the \<open>content\<close> key, the \<open>metadata\<close> key, or any key of the
  metadata. On such documents context formatting and citation extraction both return
  normally; the part rendered for a document without title starts with
  \<open>[i] Unknown\n\<close>, and the part rendered for a document without content ends after the
  newline that follows the title.
\<close>

theorem malformed_documents_tolerated:
  assumes "list_all metadata_ok docs"
  shows "(\<exists>ctx. format_context r self docs = Inr ctx) \<and>
         (\<exists>cs. extract_citations self ans docs = Inr cs) \<and>
         (\<exists>parts. format_context_loop r 1 docs [] = Inr parts \<and> length parts = length docs \<and>
            (\<forall>k < length docs.
               (meta_field (docs ! k) ''title'' = None \<longrightarrow>
                  starts_with (parts ! k) (marker (int k + 1) @ '' Unknown\<newline>'')) \<and>
               (map_of (docs ! k) ''content'' = None \<longrightarrow>
                  parts ! k = marker (int k + 1) @ '' '' @ title_text r (docs ! k) @ ''\<newline>'')))"
proof (intro conjI)
  show "\<exists>ctx. format_context r self docs = Inr ctx"
    using assms by (simp add: format_context_eq)
  show "\<exists>cs. extract_citations self ans docs = Inr cs"
    using extract_total [OF assms] by blast
  let ?parts = "map (render_document r) (py_enumerate 1 docs)"
  have nth: "?parts ! k = render_document r (int k + 1, docs ! k)" if "k < length docs" for k
    using that by (simp add: nth_py_enumerate add.commute)
  have t: "starts_with (?parts ! k) (marker (int k + 1) @ '' Unknown\<newline>'')"
    if "k < length docs" "meta_field (docs ! k) ''title'' = None" for k
  proof -
    have "?parts ! k = (marker (int k + 1) @ '' Unknown\<newline>'') @ content_text r (docs ! k)"
      unfolding nth [OF that(1)] using that(2) by (simp add: render_document_def title_text_def)
    then show ?thesis by (simp only: starts_with_append)
  qed
  have c: "?parts ! k = marker (int k + 1) @ '' '' @ title_text r (docs ! k) @ ''\<newline>''"
    if "k < length docs" "map_of (docs ! k) ''content'' = None" for k
    unfolding nth [OF that(1)] using that(2) by (simp add: render_document_def content_text_def)
  show "\<exists>parts. format_context_loop r 1 docs [] = Inr parts \<and> length parts = length docs \<and>
            (\<forall>k < length docs.
               (meta_field (docs ! k) ''title'' = None \<longrightarrow>
                  starts_with (parts ! k) (marker (int k + 1) @ '' Unknown\<newline>'')) \<and>
               (map_of (docs ! k) ''content'' = None \<longrightarrow>
                  parts ! k = marker (int k + 1) @ '' '' @ title_text r (docs ! k) @ ''\<newline>''))"
    using format_loop_parts [OF assms, of r] t c by (intro exI [of _ ?parts]) simp
qed

text \<open>
  The theorem at a document with no key followed by a document with a title only.
\<close>

theorem malformed_documents_tolerated_witness:
  "list_all metadata_ok [doc_bare, doc_A] \<and>
   format_context sample_repr disabled [doc_bare, doc_A] =
     Inr ''[1] Unknown\<newline>\<newline>\<newline>[2] A\<newline>'' \<and>
   extract_citations disabled ''[1][2]'' [doc_bare, doc_A] =
     Inr [\<lparr>index = 1, title = PNone, authors = PNone, year = PNone\<rparr>,
          \<lparr>index = 2, title = PStr ''A'', authors = PNone, year = PNone\<rparr>] \<and>
   format_context_loop sample_repr 1 [doc_bare, doc_A] [] =
     Inr [''[1] Unknown\<newline>'', ''[2] A\<newline>''] \<and>
   meta_field doc_bare ''title'' = None \<and> map_of doc_bare ''content'' = None \<and>
   map_of doc_A ''content'' = None"
  using malformed_documents_tolerated [of "[doc_bare, doc_A]" sample_repr disabled "''[1][2]''"]
  by (simp add: eval_defs eval_lines)

subsection \<open>Extraction is a function of the answer and the documents\<close>

text \<open>
  C9: citation extraction does not depend on the generator it is called on: two
  generators give the same result on the same answer text and documents. The sources
  that \<open>generate\<close> returns are the result of extraction on the text the model returned,
  whatever the question, the prompt and the client were.
\<close>

theorem extraction_is_pure:
  "extract_citations self1 ans docs = extract_citations self2 ans docs \<and>
   (\<forall>out sent. generate r invoke self question docs = (Inr out, sent) \<and> llm self \<noteq> None \<longrightarrow>
      extract_citations self2 (answer out) docs = Inr (sources out))"
  by (auto simp: extract_citations_def generate_def Let_def split: option.splits sum.splits)

text \<open>
  The theorem at a configured generator whose model replies \<open>See [1] and [2].\<close>
\<close>

theorem extraction_is_pure_witness:
  "llm configured \<noteq> None \<and>
   generate sample_repr sample_invoke configured ''q'' [doc_A, doc_B] =
     (Inr \<lparr>answer = ''See [1] and [2].'',
           sources = [\<lparr>index = 1, title = PStr ''A'', authors = PNone, year = PNone\<rparr>,
                      \<lparr>index = 2, title = PStr ''B'', authors = PNone, year = PNone\<rparr>]\<rparr>,
      [[(''context'', ''[1] A\<newline>\<newline>\<newline>[2] B\<newline>''), (''question'', ''q'')]]) \<and>
   extract_citations disabled ''See [1] and [2].'' [doc_A, doc_B] =
     Inr [\<lparr>index = 1, title = PStr ''A'', authors = PNone, year = PNone\<rparr>,
          \<lparr>index = 2, title = PStr ''B'', authors = PNone, year = PNone\<rparr>]"
  using extraction_is_pure [of configured "''See [1] and [2].''" "[doc_A, doc_B]" disabled
      sample_repr sample_invoke configured "''q''"]
  by (simp add: eval_defs generate_def configured_def init_def truthy_def)

subsection \<open>Falsy credentials\<close>

text \<open>
  C10: the generator has no client exactly when \<open>api_key\<close> is falsy, that is \<open>None\<close> or
  the empty string, and then \<open>generate\<close> returns the fixed placeholder with no sources
  for every input, without calling the language model.
\<close>

theorem falsy_credential_placeholder:
  "(llm (init m t api_key) = None \<longleftrightarrow> \<not> truthy api_key) \<and>
   (\<not> truthy api_key \<longrightarrow>
      generate r invoke (init m t api_key) question docs =
        (Inr \<lparr>answer = NOT_CONFIGURED, sources = []\<rparr>, []))"
  by (simp add: generate_def init_def)

text \<open>
  The theorem at the empty string as credential.
\<close>

theorem falsy_credential_placeholder_witness:
  "\<not> truthy (Some []) \<and> llm (init ''gpt-4'' (3 / 10) (Some [])) = None \<and>
   generate sample_repr sample_invoke (init ''gpt-4'' (3 / 10) (Some [])) ''q'' [doc_A, doc_B] =
     (Inr \<lparr>answer = NOT_CONFIGURED, sources = []\<rparr>, [])"
  using falsy_credential_placeholder
    [of "''gpt-4''" "3 / 10" "Some []" sample_repr sample_invoke "''q''" "[doc_A, doc_B]"]
  by (simp add: truthy_def)

end
